theory Spec2Isabelle
  imports Main "HOL-Library.Sublist"
begin

section \<open>Values of the upstream payload\<close>

text \<open>
  \<^verbatim>\<open>backend/main.py\<close> works on what \<^verbatim>\<open>resp.json()\<close> returns: Python values built
  from \<^verbatim>\<open>None\<close>, \<^verbatim>\<open>bool\<close>, \<^verbatim>\<open>int\<close>, \<^verbatim>\<open>str\<close>, \<^verbatim>\<open>list\<close> and \<^verbatim>\<open>dict\<close>. A Python string is
  a sequence of code points, so it is a list of naturals here (the normalizer deletes the
  single code point U+BC88, which is three bytes in UTF-8). Python integers are unbounded.
  A dictionary is an association list read with \<open>map_of\<close>. JSON numbers with a fraction
  or an exponent (Python floats) are not represented.
\<close>

type_synonym pstr = "nat list"

datatype json =
    JNull
  | JBool bool
  | JInt int
  | JStr pstr
  | JArr "json list"
  | JObj "(pstr \<times> json) list"

text \<open>The messages of the three \<^verbatim>\<open>HTTPException\<close>s raised from the selection code.\<close>

datatype detail =
    PathMissing     \<comment> \<open>status 500, the response has no \<^verbatim>\<open>result.path\<close>\<close>
  | RouteNotFound   \<comment> \<open>status 404, the route list is empty\<close>
  | MapObjMissing   \<comment> \<open>status 500, the chosen route has no \<^verbatim>\<open>mapObj\<close>\<close>

datatype error =
    HTTPException nat detail
  | KeyError
  | TypeError
  | AttributeError
  | ValueError
  | IndexError

definition bindE :: "error + 'a \<Rightarrow> ('a \<Rightarrow> error + 'b) \<Rightarrow> error + 'b" where
  "bindE m f = (case m of Inl e \<Rightarrow> Inl e | Inr x \<Rightarrow> f x)"

text \<open>An ASCII literal as a Python string.\<close>

definition ustr :: "string \<Rightarrow> pstr" where
  "ustr s = map of_char s"

subsection \<open>The Python operations the code uses\<close>

text \<open>Truth value of a value, as \<^verbatim>\<open>if x\<close>, \<^verbatim>\<open>not x\<close> and \<^verbatim>\<open>x or y\<close> test it.\<close>

fun truthy :: "json \<Rightarrow> bool" where
  "truthy JNull = False"
| "truthy (JBool b) = b"
| "truthy (JInt n) = (n \<noteq> 0)"
| "truthy (JStr s) = (s \<noteq> [])"
| "truthy (JArr xs) = (xs \<noteq> [])"
| "truthy (JObj kv) = (kv \<noteq> [])"

text \<open>\<^verbatim>\<open>x or y\<close>\<close>

definition por :: "json \<Rightarrow> json \<Rightarrow> json" where
  "por x y = (if truthy x then x else y)"

text \<open>\<^verbatim>\<open>d.get(k, default)\<close>: only a dictionary has the method.\<close>

fun py_get :: "json \<Rightarrow> pstr \<Rightarrow> json \<Rightarrow> error + json" where
  "py_get (JObj kv) k d = Inr (case map_of kv k of None \<Rightarrow> d | Some v \<Rightarrow> v)"
| "py_get _ k d = Inl AttributeError"

text \<open>\<^verbatim>\<open>d[k]\<close> with a string key: \<^verbatim>\<open>KeyError\<close> on a dictionary without the key,
  \<^verbatim>\<open>TypeError\<close> on every other value.\<close>

fun py_getitem :: "json \<Rightarrow> pstr \<Rightarrow> error + json" where
  "py_getitem (JObj kv) k = (case map_of kv k of None \<Rightarrow> Inl KeyError | Some v \<Rightarrow> Inr v)"
| "py_getitem _ k = Inl TypeError"

text \<open>\<^verbatim>\<open>xs[0]\<close>: the first element of a list, the first character of a string; a
  dictionary read from JSON has string keys only, so the key \<^verbatim>\<open>0\<close> is never there.\<close>

fun py_first :: "json \<Rightarrow> error + json" where
  "py_first (JArr []) = Inl IndexError"
| "py_first (JArr (x # xs)) = Inr x"
| "py_first (JStr []) = Inl IndexError"
| "py_first (JStr (c # cs)) = Inr (JStr [c])"
| "py_first (JObj kv) = Inl KeyError"
| "py_first _ = Inl TypeError"

text \<open>The elements a \<^verbatim>\<open>for\<close> loop visits: the items of a list, the characters of a
  string, the keys of a dictionary; nothing else is iterable.\<close>

fun py_iter :: "json \<Rightarrow> error + json list" where
  "py_iter (JArr xs) = Inr xs"
| "py_iter (JStr s) = Inr (map (\<lambda>c. JStr [c]) s)"
| "py_iter (JObj kv) = Inr (map (\<lambda>(k, v). JStr k) kv)"
| "py_iter _ = Inl TypeError"

text \<open>\<^verbatim>\<open>x == n\<close> for an integer literal \<^verbatim>\<open>n\<close>: \<^verbatim>\<open>True == 1\<close> and \<^verbatim>\<open>False == 0\<close> hold
  in Python.\<close>

fun eq_int :: "json \<Rightarrow> int \<Rightarrow> bool" where
  "eq_int (JInt m) n = (m = n)"
| "eq_int (JBool b) n = ((if b then 1 else 0) = n)"
| "eq_int _ n = False"

text \<open>\<^verbatim>\<open>a in b\<close> on strings: \<open>a\<close> occurs in \<open>b\<close> as a contiguous run.\<close>

fun str_in :: "pstr \<Rightarrow> pstr \<Rightarrow> bool" where
  "str_in a [] = (a = [])"
| "str_in a (c # cs) = (prefix a (c # cs) \<or> str_in a cs)"

text \<open>\<^verbatim>\<open>str.isspace\<close> of one code point; \<^verbatim>\<open>str.strip()\<close> removes these at both ends.\<close>

definition is_space :: "nat \<Rightarrow> bool" where
  "is_space c = ((9 \<le> c \<and> c \<le> 13) \<or> (28 \<le> c \<and> c \<le> 32) \<or> c = 133 \<or> c = 160
     \<or> c = 5760 \<or> (8192 \<le> c \<and> c \<le> 8202) \<or> c = 8232 \<or> c = 8233 \<or> c = 8239
     \<or> c = 8287 \<or> c = 12288)"

definition strip :: "pstr \<Rightarrow> pstr" where
  "strip s = rev (dropWhile is_space (rev (dropWhile is_space s)))"

text \<open>\<^verbatim>\<open>s.replace(ch, "")\<close> for a string \<^verbatim>\<open>ch\<close> of one code point.\<close>

definition replace_del :: "nat \<Rightarrow> pstr \<Rightarrow> pstr" where
  "replace_del ch s = filter (\<lambda>c. c \<noteq> ch) s"

text \<open>\<^verbatim>\<open>str(n)\<close> of an integer: decimal digits, with a minus sign below zero.\<close>

fun digits :: "nat \<Rightarrow> pstr" where
  "digits n = (if n < 10 then [48 + n] else digits (n div 10) @ [48 + n mod 10])"

definition str_int :: "int \<Rightarrow> pstr" where
  "str_int n = (if n < 0 then 45 # digits (nat (- n)) else digits (nat n))"

text \<open>
  Two builtins are parameters of the model, and every theorem holds for each choice of
  them: \<^verbatim>\<open>int(s)\<close> on a string (\<open>None\<close> is \<^verbatim>\<open>ValueError\<close>), whose accepted literals
  depend on the Unicode tables and on the interpreter's digit limit, and \<^verbatim>\<open>str(x)\<close> on
  a list or a dictionary, which is Python's \<^verbatim>\<open>repr\<close>.
\<close>

record builtins =
  int_str :: "pstr \<Rightarrow> int option"
  repr :: "json \<Rightarrow> pstr"

text \<open>\<^verbatim>\<open>int(x)\<close>\<close>

fun py_int :: "builtins \<Rightarrow> json \<Rightarrow> error + int" where
  "py_int B (JInt n) = Inr n"
| "py_int B (JBool b) = Inr (if b then 1 else 0)"
| "py_int B (JStr s) = (case int_str B s of None \<Rightarrow> Inl ValueError | Some n \<Rightarrow> Inr n)"
| "py_int B _ = Inl TypeError"

text \<open>\<^verbatim>\<open>str(x)\<close>\<close>

fun py_str :: "builtins \<Rightarrow> json \<Rightarrow> pstr" where
  "py_str B (JStr s) = s"
| "py_str B (JInt n) = str_int n"
| "py_str B (JBool b) = (if b then ustr ''True'' else ustr ''False'')"
| "py_str B JNull = ustr ''None''"
| "py_str B x = repr B x"

text \<open>The builtins used to evaluate examples: none of them reaches \<^verbatim>\<open>int\<close> of a string
  or \<^verbatim>\<open>str\<close> of a container.\<close>

definition example_builtins :: builtins where
  "example_builtins = \<lparr> int_str = (\<lambda>s. None), repr = (\<lambda>x. []) \<rparr>"

section \<open>The normalizer\<close>

text \<open>
  \<^verbatim>\<open>
  def norm(s: Optional[str]) -> str:
      if not s:
          return ""
      s = s.strip()
      for ch in ["(", ")", " ", "\ubc88"]:
          s = s.replace(ch, "")
      return s
  \<close>
  The scorer also passes it a stop name of any type; a value that is true and is not a
  string has no \<^verbatim>\<open>strip\<close>.
\<close>

definition norm :: "json \<Rightarrow> error + pstr" where
  "norm s =
     (if \<not> truthy s then Inr []
      else case s of
             JStr t \<Rightarrow> Inr (foldl (\<lambda>t ch. replace_del ch t) (strip t) [40, 41, 32, 48264])
           | _ \<Rightarrow> Inl AttributeError)"

section \<open>The path scorer\<close>

text \<open>
  \<^verbatim>\<open>score_path_for_ride(path, ride, board, drop)\<close>, lines 81 to 144. Each loop of the
  source is one recursive function over the elements the loop visits; the running
  \<^verbatim>\<open>score\<close> is passed along. Every attribute access, every iteration and the \<^verbatim>\<open>int\<close>
  conversion can raise, and the first exception ends the computation.
\<close>

text \<open>
  Lines 124 to 128, the loop over the candidate names of one lane:
  \<^verbatim>\<open>
  for cand in candidates:
      if ride_n and ride_n in norm(str(cand)):
          score += 10
          break
  \<close>
\<close>

fun cand_loop :: "builtins \<Rightarrow> pstr \<Rightarrow> json list \<Rightarrow> int \<Rightarrow> error + int" where
  "cand_loop B ride_n [] score = Inr score"
| "cand_loop B ride_n (cand # cands) score =
     bindE (norm (JStr (py_str B cand))) (\<lambda>n.
       if ride_n \<noteq> [] \<and> str_in ride_n n then Inr (score + 10)
       else cand_loop B ride_n cands score)"

text \<open>
  Lines 109 to 122, the candidate names of one lane:
  \<^verbatim>\<open>
  candidates = []
  if ttype == 2:
      bus_no = lane.get("busNo")
      name = lane.get("name")
      if bus_no: candidates.append(bus_no)
      if name: candidates.append(name)
  if ttype == 1:
      name = lane.get("name")
      if name: candidates.append(name)
  \<close>
\<close>

definition lane_candidates :: "json \<Rightarrow> json \<Rightarrow> error + json list" where
  "lane_candidates ttype lane =
     bindE (if eq_int ttype 2
            then bindE (py_get lane (ustr ''busNo'') JNull) (\<lambda>bus_no.
                 bindE (py_get lane (ustr ''name'') JNull) (\<lambda>name.
                   Inr ((if truthy bus_no then [bus_no] else [])
                        @ (if truthy name then [name] else []))))
            else Inr [])
       (\<lambda>candidates.
          if eq_int ttype 1
          then bindE (py_get lane (ustr ''name'') JNull) (\<lambda>name.
                 Inr (candidates @ (if truthy name then [name] else [])))
          else Inr candidates)"

text \<open>Lines 108 to 128, \<^verbatim>\<open>for lane in lanes\<close>: the \<^verbatim>\<open>break\<close> above leaves the loop over
  the candidates only, and the next lane is scanned with the score reached so far.\<close>

fun lane_loop :: "builtins \<Rightarrow> pstr \<Rightarrow> json \<Rightarrow> json list \<Rightarrow> int \<Rightarrow> error + int" where
  "lane_loop B ride_n ttype [] score = Inr score"
| "lane_loop B ride_n ttype (lane # lanes) score =
     bindE (lane_candidates ttype lane) (\<lambda>candidates.
     bindE (cand_loop B ride_n candidates score) (\<lambda>score'.
       lane_loop B ride_n ttype lanes score'))"

text \<open>
  Lines 103 to 128, \<^verbatim>\<open>for sp in sub_paths\<close>:
  \<^verbatim>\<open>
  ttype = sp.get("trafficType")
  if ttype not in (1, 2):
      continue
  lanes = sp.get("lane", []) or []
  for lane in lanes: ...
  \<close>
\<close>

fun leg_loop :: "builtins \<Rightarrow> pstr \<Rightarrow> json list \<Rightarrow> int \<Rightarrow> error + int" where
  "leg_loop B ride_n [] score = Inr score"
| "leg_loop B ride_n (sp # sps) score =
     bindE (py_get sp (ustr ''trafficType'') JNull) (\<lambda>ttype.
       if \<not> (eq_int ttype 1 \<or> eq_int ttype 2) then leg_loop B ride_n sps score
       else
         bindE (py_get sp (ustr ''lane'') (JArr [])) (\<lambda>l.
         bindE (py_iter (por l (JArr []))) (\<lambda>lanes.
         bindE (lane_loop B ride_n ttype lanes score) (\<lambda>score'.
           leg_loop B ride_n sps score'))))"

text \<open>Lines 102 to 128: the ride matching runs only for a non-empty normalized hint.\<close>

definition ride_matching :: "builtins \<Rightarrow> pstr \<Rightarrow> json \<Rightarrow> int \<Rightarrow> error + int" where
  "ride_matching B ride_n sub_paths score =
     (if ride_n \<noteq> [] then bindE (py_iter sub_paths) (\<lambda>sps. leg_loop B ride_n sps score)
      else Inr score)"

text \<open>
  Lines 135 to 137, the stops of one leg:
  \<^verbatim>\<open>
  for st in stations:
      name = st.get("stationName") or ""
      station_names_norm.append(norm(name))
  \<close>
\<close>

fun station_loop :: "json list \<Rightarrow> pstr list \<Rightarrow> error + pstr list" where
  "station_loop [] names = Inr names"
| "station_loop (st # sts) names =
     bindE (py_get st (ustr ''stationName'') JNull) (\<lambda>n.
     bindE (norm (por n (JStr []))) (\<lambda>s.
       station_loop sts (names @ [s])))"

text \<open>
  Lines 132 to 137:
  \<^verbatim>\<open>
  for sp in sub_paths:
      pass_list = sp.get("passStopList") or {}
      stations = pass_list.get("stations", []) or pass_list.get("station", []) or []
      for st in stations: ...
  \<close>
\<close>

fun stops_loop :: "json list \<Rightarrow> pstr list \<Rightarrow> error + pstr list" where
  "stops_loop [] names = Inr names"
| "stops_loop (sp # sps) names =
     bindE (py_get sp (ustr ''passStopList'') JNull) (\<lambda>pl.
     bindE (py_get (por pl (JObj [])) (ustr ''stations'') (JArr [])) (\<lambda>s1.
     bindE (if truthy s1 then Inr s1
            else bindE (py_get (por pl (JObj [])) (ustr ''station'') (JArr [])) (\<lambda>s2.
                   Inr (por s2 (JArr [])))) (\<lambda>stations.
     bindE (py_iter stations) (\<lambda>sts.
     bindE (station_loop sts names) (\<lambda>names'.
       stops_loop sps names')))))"

definition station_names :: "json \<Rightarrow> error + pstr list" where
  "station_names sub_paths = bindE (py_iter sub_paths) (\<lambda>sps. stops_loop sps [])"

text \<open>
  Lines 96 and 97:
  \<^verbatim>\<open>
  info = path.get("info", {})
  total_time = int(info.get("totalTime") or 10**9)
  \<close>
\<close>

definition total_time :: "builtins \<Rightarrow> json \<Rightarrow> error + int" where
  "total_time B path =
     bindE (py_get path (ustr ''info'') (JObj [])) (\<lambda>info.
     bindE (py_get info (ustr ''totalTime'') JNull) (\<lambda>t.
       py_int B (por t (JInt (10 ^ 9)))))"

text \<open>The whole function, in the order of the source; \<^verbatim>\<open>any(h in s for s in names)\<close> is
  \<open>list_ex\<close>.\<close>

definition score_path_for_ride ::
  "builtins \<Rightarrow> json \<Rightarrow> pstr \<Rightarrow> pstr \<Rightarrow> pstr \<Rightarrow> error + (int \<times> int)" where
  "score_path_for_ride B path ride board drop' =
     bindE (norm (JStr ride)) (\<lambda>ride_n.
     bindE (norm (JStr board)) (\<lambda>board_n.
     bindE (norm (JStr drop')) (\<lambda>drop_n.
     bindE (total_time B path) (\<lambda>tt.
     bindE (py_get path (ustr ''subPath'') (JArr [])) (\<lambda>sp.
     bindE (ride_matching B ride_n (por sp (JArr [])) 0) (\<lambda>score1.
     bindE (station_names (por sp (JArr []))) (\<lambda>station_names_norm.
       Inr (score1
              + (if board_n \<noteq> [] \<and> list_ex (str_in board_n) station_names_norm then 5 else 0)
              + (if drop_n \<noteq> [] \<and> list_ex (str_in drop_n) station_names_norm then 5 else 0),
            tt))))))))"

section \<open>The path selector\<close>

text \<open>
  Lines 157 to 160: \<^verbatim>\<open>data["result"]["path"]\<close>, where \<^verbatim>\<open>KeyError\<close> and \<^verbatim>\<open>TypeError\<close>
  become the \<^verbatim>\<open>HTTPException\<close> with status 500.
\<close>

definition locate_paths :: "json \<Rightarrow> error + json" where
  "locate_paths data =
     (case bindE (py_getitem data (ustr ''result'')) (\<lambda>r. py_getitem r (ustr ''path'')) of
        Inl KeyError \<Rightarrow> Inl (HTTPException 500 PathMissing)
      | Inl TypeError \<Rightarrow> Inl (HTTPException 500 PathMissing)
      | Inl e \<Rightarrow> Inl e
      | Inr paths \<Rightarrow> Inr paths)"

text \<open>
  Lines 172 to 179, one turn of the loop on the triple \<^verbatim>\<open>best\<close>, which is \<^verbatim>\<open>None\<close>
  before the first route:
  \<^verbatim>\<open>
  if best is None:
      best = (sc, tt, p); continue
  b_sc, b_tt, _ = best
  if sc > b_sc or (sc == b_sc and tt < b_tt):
      best = (sc, tt, p)
  \<close>
\<close>

type_synonym best = "(int \<times> int \<times> json) option"

fun update_best :: "best \<Rightarrow> int \<times> int \<times> json \<Rightarrow> best" where
  "update_best None (sc, tt, p) = Some (sc, tt, p)"
| "update_best (Some (b_sc, b_tt, b_p)) (sc, tt, p) =
     (if sc > b_sc \<or> (sc = b_sc \<and> tt < b_tt) then Some (sc, tt, p)
      else Some (b_sc, b_tt, b_p))"

text \<open>Lines 170 to 179, \<^verbatim>\<open>for p in paths\<close>.\<close>

fun best_loop ::
  "builtins \<Rightarrow> pstr \<Rightarrow> pstr \<Rightarrow> pstr \<Rightarrow> json list \<Rightarrow> best \<Rightarrow> error + best" where
  "best_loop B ride board drop' [] best = Inr best"
| "best_loop B ride board drop' (p # ps) best =
     bindE (score_path_for_ride B p ride board drop') (\<lambda>(sc, tt).
       best_loop B ride board drop' ps (update_best best (sc, tt, p)))"

text \<open>
  Lines 146 to 190. The hints are strings, so \<^verbatim>\<open>ride or board or drop\<close> is true when one
  of them is not empty.
\<close>

definition select_path_for_ride ::
  "builtins \<Rightarrow> json \<Rightarrow> pstr \<Rightarrow> pstr \<Rightarrow> pstr \<Rightarrow> error + json" where
  "select_path_for_ride B data ride board drop' =
     bindE (locate_paths data) (\<lambda>paths.
       if \<not> truthy paths then Inl (HTTPException 404 RouteNotFound)
       else if \<not> (ride \<noteq> [] \<or> board \<noteq> [] \<or> drop' \<noteq> []) then py_first paths
       else
         bindE (py_iter paths) (\<lambda>ps.
         bindE (best_loop B ride board drop' ps None) (\<lambda>best.
           case best of
             None \<Rightarrow> py_first paths
           | Some (best_score, _, best_path) \<Rightarrow>
               if best_score = 0 then py_first paths else Inr best_path)))"

section \<open>Extracting the route handle\<close>

text \<open>
  Lines 217 to 222 of \<^verbatim>\<open>get_map_obj\<close>; \<open>data\<close> is what the call of \<^verbatim>\<open>odsay_get\<close> on
  lines 205 to 215 returned.
  \<^verbatim>\<open>
  path = select_path_for_ride(data, ride, board, drop')
  info = path.get("info", {})
  map_obj = info.get("mapObj")
  if not map_obj:
      raise HTTPException(status_code=500, ...)
  return map_obj
  \<close>
\<close>

definition get_map_obj :: "builtins \<Rightarrow> json \<Rightarrow> pstr \<Rightarrow> pstr \<Rightarrow> pstr \<Rightarrow> error + json" where
  "get_map_obj B data ride board drop' =
     bindE (select_path_for_ride B data ride board drop') (\<lambda>path.
     bindE (py_get path (ustr ''info'') (JObj [])) (\<lambda>info.
     bindE (py_get info (ustr ''mapObj'') JNull) (\<lambda>map_obj.
       if \<not> truthy map_obj then Inl (HTTPException 500 MapObjMissing)
       else Inr map_obj)))"

section \<open>Notions used to state the properties\<close>

text \<open>The string the normalizer is meant to return: the stripped input without the four
  code points of \<^verbatim>\<open>(\<close>, \<^verbatim>\<open>)\<close>, the space and U+BC88.\<close>

definition normalized :: "pstr \<Rightarrow> pstr" where
  "normalized s = filter (\<lambda>c. c \<noteq> 40 \<and> c \<noteq> 41 \<and> c \<noteq> 32 \<and> c \<noteq> 48264) (strip s)"

text \<open>The value stored under a key of an object.\<close>

definition field :: "json \<Rightarrow> string \<Rightarrow> json option" where
  "field v k = (case v of JObj kv \<Rightarrow> map_of kv (ustr k) | _ \<Rightarrow> None)"

text \<open>The route list of an upstream payload, \<^verbatim>\<open>result.path\<close>, when it is there.\<close>

definition route_list :: "json \<Rightarrow> json option" where
  "route_list data = (case field data ''result'' of None \<Rightarrow> None | Some r \<Rightarrow> field r ''path'')"

text \<open>The \<^verbatim>\<open>info.totalTime\<close> field of a route, when it is there.\<close>

definition info_time :: "json \<Rightarrow> json option" where
  "info_time p = (case field p ''info'' of None \<Rightarrow> None | Some i \<Rightarrow> field i ''totalTime'')"

text \<open>The time the scorer is to report: the field when it is an integer other than 0,
  and \<open>10\<^sup>9\<close> otherwise.\<close>

definition route_time :: "json \<Rightarrow> int" where
  "route_time p =
     (case info_time p of Some (JInt n) \<Rightarrow> if n = 0 then 10 ^ 9 else n | _ \<Rightarrow> 10 ^ 9)"

text \<open>The \<^verbatim>\<open>info.mapObj\<close> field of a route, when it is there.\<close>

definition info_map_obj :: "json \<Rightarrow> json option" where
  "info_map_obj p = (case field p ''info'' of None \<Rightarrow> None | Some i \<Rightarrow> field i ''mapObj'')"

subsection \<open>Candidate routes as the data model describes them\<close>

text \<open>
  A candidate route is an object; its \<^verbatim>\<open>info\<close>, when present, is an object whose
  \<^verbatim>\<open>totalTime\<close> is an integer; its \<^verbatim>\<open>subPath\<close> is a list of legs; a leg is an object
  whose \<^verbatim>\<open>lane\<close> is a list of objects and whose \<^verbatim>\<open>passStopList\<close> is an object with
  the stop lists \<^verbatim>\<open>stations\<close> or \<^verbatim>\<open>station\<close>; a stop is an object whose
  \<^verbatim>\<open>stationName\<close> is a string. Every field may be absent or \<^verbatim>\<open>null\<close>, except that
  \<^verbatim>\<open>info\<close> is absent or an object. The line names \<^verbatim>\<open>busNo\<close> and \<^verbatim>\<open>name\<close> and the
  \<^verbatim>\<open>trafficType\<close> are not restricted.
\<close>

definition is_obj :: "json \<Rightarrow> bool" where
  "is_obj v = (case v of JObj kv \<Rightarrow> True | _ \<Rightarrow> False)"

definition is_str :: "json \<Rightarrow> bool" where
  "is_str v = (case v of JStr s \<Rightarrow> True | _ \<Rightarrow> False)"

definition is_int :: "json \<Rightarrow> bool" where
  "is_int v = (case v of JInt n \<Rightarrow> True | _ \<Rightarrow> False)"

definition list_of :: "(json \<Rightarrow> bool) \<Rightarrow> json \<Rightarrow> bool" where
  "list_of P v = (case v of JArr xs \<Rightarrow> list_all P xs | _ \<Rightarrow> False)"

definition opt_field :: "(json \<Rightarrow> bool) \<Rightarrow> json \<Rightarrow> string \<Rightarrow> bool" where
  "opt_field P v k = (case field v k of None \<Rightarrow> True | Some JNull \<Rightarrow> True | Some x \<Rightarrow> P x)"

definition wf_station :: "json \<Rightarrow> bool" where
  "wf_station st = (is_obj st \<and> opt_field is_str st ''stationName'')"

definition wf_stops :: "json \<Rightarrow> bool" where
  "wf_stops pl = (is_obj pl \<and> opt_field (list_of wf_station) pl ''stations''
                  \<and> opt_field (list_of wf_station) pl ''station'')"

definition wf_leg :: "json \<Rightarrow> bool" where
  "wf_leg sp = (is_obj sp \<and> opt_field (list_of is_obj) sp ''lane''
                \<and> opt_field wf_stops sp ''passStopList'')"

definition wf_info :: "json \<Rightarrow> bool" where
  "wf_info i = (is_obj i \<and> opt_field is_int i ''totalTime'')"

definition wf_route :: "json \<Rightarrow> bool" where
  "wf_route p = (is_obj p
                 \<and> (case field p ''info'' of None \<Rightarrow> True | Some i \<Rightarrow> wf_info i)
                 \<and> opt_field (list_of wf_leg) p ''subPath'')"

subsection \<open>The lanes that match a ride hint\<close>

definition legs_of :: "json \<Rightarrow> json list" where
  "legs_of p = (case field p ''subPath'' of Some (JArr sps) \<Rightarrow> sps | _ \<Rightarrow> [])"

definition lanes_of :: "json \<Rightarrow> json list" where
  "lanes_of sp = (case field sp ''lane'' of Some (JArr lanes) \<Rightarrow> lanes | _ \<Rightarrow> [])"

definition traffic_type :: "json \<Rightarrow> json" where
  "traffic_type sp = (case field sp ''trafficType'' of Some t \<Rightarrow> t | None \<Rightarrow> JNull)"

text \<open>The line names of a lane that take part in the matching: \<^verbatim>\<open>busNo\<close> and
  \<^verbatim>\<open>name\<close> on a bus leg (type 2), \<^verbatim>\<open>name\<close> on a subway leg (type 1), none on any
  other leg.\<close>

definition lane_names :: "json \<Rightarrow> json \<Rightarrow> json list" where
  "lane_names ttype lane =
     filter truthy
       (map (\<lambda>k. case field lane k of Some v \<Rightarrow> v | None \<Rightarrow> JNull)
            (if eq_int ttype 2 then [''busNo'', ''name'']
             else if eq_int ttype 1 then [''name''] else []))"

text \<open>A lane matches when the hint occurs in one of its normalized names.\<close>

definition lane_hit :: "builtins \<Rightarrow> pstr \<Rightarrow> json \<Rightarrow> json \<Rightarrow> bool" where
  "lane_hit B ride_n ttype lane =
     list_ex (\<lambda>v. str_in ride_n (normalized (py_str B v))) (lane_names ttype lane)"

definition matching_lanes :: "builtins \<Rightarrow> pstr \<Rightarrow> json \<Rightarrow> nat" where
  "matching_lanes B ride_n p =
     sum_list (map (\<lambda>sp. length (filter (lane_hit B ride_n (traffic_type sp)) (lanes_of sp)))
                   (legs_of p))"

text \<open>The legs with at least one matching lane.\<close>

definition matching_legs :: "builtins \<Rightarrow> pstr \<Rightarrow> json \<Rightarrow> nat" where
  "matching_legs B ride_n p =
     length (filter (\<lambda>sp. list_ex (lane_hit B ride_n (traffic_type sp)) (lanes_of sp))
                    (legs_of p))"

subsection \<open>The order of the selector\<close>

text \<open>A scoring result \<open>(score, totalTime)\<close> beats another when its score is greater, or
  the scores are equal and its time is less.\<close>

definition beats :: "int \<times> int \<Rightarrow> int \<times> int \<Rightarrow> bool" where
  "beats a b = (fst a > fst b \<or> (fst a = fst b \<and> snd a < snd b))"

subsection \<open>Example routes\<close>

text \<open>A route with one bus leg served by the two lines 401 and 1401.\<close>

definition route_two_lanes :: json where
  "route_two_lanes =
     JObj [(ustr ''subPath'',
            JArr [JObj [(ustr ''trafficType'', JInt 2),
                        (ustr ''lane'', JArr [JObj [(ustr ''busNo'', JStr (ustr ''401''))],
                                              JObj [(ustr ''busNo'', JStr (ustr ''1401''))]])]])]"

text \<open>A route that only carries a total time.\<close>

definition route_with_time :: "int \<Rightarrow> json" where
  "route_with_time n = JObj [(ustr ''info'', JObj [(ustr ''totalTime'', JInt n)])]"

text \<open>A route with a total time, a handle and one bus leg served by one line.\<close>

definition bus_route :: "string \<Rightarrow> int \<Rightarrow> string \<Rightarrow> json" where
  "bus_route bus_no n handle =
     JObj [(ustr ''info'', JObj [(ustr ''totalTime'', JInt n),
                                 (ustr ''mapObj'', JStr (ustr handle))]),
           (ustr ''subPath'',
            JArr [JObj [(ustr ''trafficType'', JInt 2),
                        (ustr ''lane'', JArr [JObj [(ustr ''busNo'', JStr (ustr bus_no))]])]])]"

text \<open>The upstream response that carries a route list.\<close>

definition response_with :: "json \<Rightarrow> json" where
  "response_with paths = JObj [(ustr ''result'', JObj [(ustr ''path'', paths)])]"

section \<open>Properties of the normalizer\<close>

lemma norm_str: "norm (JStr x) = Inr (normalized x)"
  by (simp add: norm_def normalized_def replace_del_def strip_def conj_commute conj_left_commute)

lemma norm_null: "norm JNull = Inr []"
  by (simp add: norm_def)

lemma strip_set: "set (strip s) \<subseteq> set s"
  unfolding strip_def
  by (metis set_rev set_dropWhileD subsetI)

lemma strip_nospace:
  assumes "\<forall>c\<in>set s. \<not> is_space c"
  shows "strip s = s"
proof -
  have a: "dropWhile is_space s = s"
    using assms by (cases s) auto
  have "\<forall>c\<in>set (rev s). \<not> is_space c"
    using assms by simp
  then have "dropWhile is_space (rev s) = rev s"
    by (cases "rev s") auto
  then show ?thesis
    by (simp add: strip_def a)
qed

lemma normalized_chars:
  "c \<in> set (normalized x) \<Longrightarrow> c \<in> set x \<and> c \<noteq> 40 \<and> c \<noteq> 41 \<and> c \<noteq> 32 \<and> c \<noteq> 48264"
  using strip_set [of x] by (auto simp: normalized_def)

lemma normalized_twice: "normalized (normalized x) = strip (normalized x)"
proof -
  have "\<forall>c\<in>set (strip (normalized x)). c \<noteq> 40 \<and> c \<noteq> 41 \<and> c \<noteq> 32 \<and> c \<noteq> 48264"
    using strip_set [of "normalized x"] normalized_chars [of _ x] by blast
  then show ?thesis
    unfolding normalized_def [of "normalized x"] by (simp add: filter_id_conv)
qed

lemma normalized_idem:
  assumes "\<forall>c\<in>set x. is_space c \<longrightarrow> c = 32"
  shows "normalized (normalized x) = normalized x"
proof -
  have "\<forall>c\<in>set (normalized x). \<not> is_space c"
    using assms normalized_chars [of _ x] by blast
  then show ?thesis
    by (simp add: normalized_twice strip_nospace)
qed

text \<open>
  C7, as stated, fails: the normalizer removes the space U+0020 only, and a tab inside the
  text stays.
\<close>

theorem norm_keeps_interior_tab:
  "is_space 9 \<and> norm (JStr [97, 9, 98]) = Inr [97, 9, 98]"
  by (simp add: norm_def replace_del_def strip_def is_space_def)

text \<open>
  C7, amended: the normalizer yields the empty string on \<^verbatim>\<open>None\<close> and on the empty string;
  on every other string it strips the whitespace at both ends and then removes every
  occurrence of \<^verbatim>\<open>(\<close>, of \<^verbatim>\<open>)\<close>, of the space U+0020 and of U+BC88, and nothing else
  (whitespace other than U+0020 inside the text is kept).
\<close>

theorem norm_strips_and_removes:
  "norm JNull = Inr [] \<and> norm (JStr []) = Inr []
   \<and> norm (JStr x) = Inr (filter (\<lambda>c. c \<noteq> 40 \<and> c \<noteq> 41 \<and> c \<noteq> 32 \<and> c \<noteq> 48264) (strip x))"
  using norm_str [of x] norm_str [of "[]"]
  by (simp add: norm_null normalized_def strip_def)

text \<open>The example of the specification: \<^verbatim>\<open>" 401(..) "\<close> with the two syllables U+AC04 and
  U+C120 between the parentheses.\<close>

theorem norm_strips_and_removes_witness:
  "norm (JStr [32, 52, 48, 49, 40, 44036, 49440, 41, 32]) = Inr [52, 48, 49, 44036, 49440]"
  using norm_strips_and_removes [of "[32, 52, 48, 49, 40, 44036, 49440, 41, 32]"]
  by (simp add: strip_def is_space_def)

text \<open>
  C8, as stated, fails: removing the parentheses of \<^verbatim>\<open>"(\t)"\<close> leaves a tab, which a
  second pass strips.
\<close>

theorem norm_not_idempotent:
  "norm (JStr [40, 9, 41]) = Inr [9] \<and> norm (JStr [9]) = Inr []"
  by (simp add: norm_def replace_del_def strip_def is_space_def)

text \<open>
  C8, amended: the normalizer returns a string for \<^verbatim>\<open>None\<close> and for every string; a second
  pass only strips the result of the first; and it is idempotent on every string whose
  whitespace characters are all the space U+0020.
\<close>

theorem norm_idempotent_plain_space:
  "(\<exists>y. norm (JStr x) = Inr y) \<and> norm JNull = Inr []
   \<and> (\<forall>y. norm (JStr x) = Inr y \<longrightarrow> norm (JStr y) = Inr (strip y))
   \<and> ((\<forall>c\<in>set x. is_space c \<longrightarrow> c = 32)
        \<longrightarrow> (\<forall>y. norm (JStr x) = Inr y \<longrightarrow> norm (JStr y) = Inr y))"
  using normalized_idem [of x] normalized_twice [of x]
  by (simp add: norm_str norm_null)

theorem norm_idempotent_plain_space_witness:
  "norm (JStr [32, 52, 48, 49, 40, 44036, 49440, 41, 32]) = Inr [52, 48, 49, 44036, 49440]
   \<and> norm (JStr [52, 48, 49, 44036, 49440]) = Inr [52, 48, 49, 44036, 49440]"
  using norm_idempotent_plain_space [of "[32, 52, 48, 49, 40, 44036, 49440, 41, 32]"]
  by (simp add: norm_def replace_del_def strip_def is_space_def)

section \<open>Auxiliary facts\<close>

text \<open>The error monad, and the equations that evaluate the examples.\<close>

lemma bindE_Inr [simp]: "bindE (Inr x) f = f x"
  by (simp add: bindE_def)

lemma bindE_Inl [simp]: "bindE (Inl e) f = Inl e"
  by (simp add: bindE_def)


lemma map_Inr_nth:
  assumes "map f ps = map Inr rs" and "j < length ps"
  shows "f (ps ! j) = Inr (rs ! j)"
  using assms by (metis length_map nth_map)

lemma ustr_simps: "ustr [] = []" "ustr (c # cs) = of_char c # ustr cs"
  by (simp_all add: ustr_def)

lemmas eval_defs = bus_route_def response_with_def route_list_def field_def ustr_simps
  select_path_for_ride_def locate_paths_def score_path_for_ride_def norm_def replace_del_def
  strip_def is_space_def total_time_def por_def ride_matching_def station_names_def
  lane_candidates_def

section \<open>The scorer on well-formed routes\<close>

text \<open>On a well-formed route no attribute access, iteration or conversion of the scorer
  raises, and each loop has a closed form.\<close>

lemma eq_int_2_not_1: "eq_int t 2 \<Longrightarrow> \<not> eq_int t 1"
  by (cases t) (auto split: if_splits)

lemma cand_loop_result:
  "cand_loop B r cands score =
     Inr (score + (if r \<noteq> [] \<and> list_ex (\<lambda>v. str_in r (normalized (py_str B v))) cands
                   then 10 else 0))"
  by (induction cands) (auto simp: norm_str)

lemma lane_candidates_obj:
  assumes "is_obj lane"
  shows "lane_candidates ttype lane = Inr (lane_names ttype lane)"
proof -
  obtain kv where l: "lane = JObj kv"
    using assms by (cases lane) (auto simp: is_obj_def)
  show ?thesis
    using eq_int_2_not_1 [of ttype]
    by (auto simp: l lane_candidates_def lane_names_def field_def split: option.splits)
qed

lemma lane_loop_result:
  assumes "list_all is_obj lanes" and "r \<noteq> []"
  shows "lane_loop B r t lanes score =
           Inr (score + 10 * int (length (filter (lane_hit B r t) lanes)))"
  using assms
  by (induction lanes arbitrary: score)
     (auto simp: lane_candidates_obj cand_loop_result lane_hit_def)

lemma wf_leg_lanes:
  assumes "wf_leg sp"
  shows "\<exists>kv. sp = JObj kv
          \<and> py_iter (por (case map_of kv (ustr ''lane'') of None \<Rightarrow> JArr [] | Some v \<Rightarrow> v) (JArr []))
              = Inr (lanes_of sp)
          \<and> list_all is_obj (lanes_of sp)"
proof -
  obtain kv where l: "sp = JObj kv"
    using assms by (cases sp) (auto simp: wf_leg_def is_obj_def)
  have "opt_field (list_of is_obj) sp ''lane''"
    using assms by (simp add: wf_leg_def)
  then show ?thesis
    by (auto simp: l opt_field_def field_def lanes_of_def list_of_def por_def
             split: option.splits json.splits)
qed

lemma lane_hit_other:
  "\<not> (eq_int t 1 \<or> eq_int t 2) \<Longrightarrow> \<not> lane_hit B r t lane"
  by (simp add: lane_hit_def lane_names_def)

lemma leg_loop_result:
  assumes "list_all wf_leg sps" and "r \<noteq> []"
  shows "leg_loop B r sps score =
           Inr (score + 10 * int (sum_list (map (\<lambda>sp. length (filter (lane_hit B r (traffic_type sp))
                                                                (lanes_of sp))) sps)))"
  using assms
proof (induction sps arbitrary: score)
  case Nil
  then show ?case by simp
next
  case (Cons sp sps)
  from Cons.prems obtain kv where
    sp: "sp = JObj kv" and
    it: "py_iter (por (case map_of kv (ustr ''lane'') of None \<Rightarrow> JArr [] | Some v \<Rightarrow> v) (JArr []))
           = Inr (lanes_of sp)" and
    ob: "list_all is_obj (lanes_of sp)"
    using wf_leg_lanes [of sp] by auto
  have tt: "(case map_of kv (ustr ''trafficType'') of None \<Rightarrow> JNull | Some v \<Rightarrow> v) = traffic_type sp"
    by (simp add: sp traffic_type_def field_def split: option.splits)
  have rest: "\<And>s. leg_loop B r sps s =
           Inr (s + 10 * int (sum_list (map (\<lambda>sp. length (filter (lane_hit B r (traffic_type sp))
                                                            (lanes_of sp))) sps)))"
    using Cons by simp
  show ?case
  proof (cases "eq_int (traffic_type sp) 1 \<or> eq_int (traffic_type sp) 2")
    case True
    then have "leg_loop B r (JObj kv # sps) score =
                 bindE (lane_loop B r (traffic_type sp) (lanes_of sp) score) (leg_loop B r sps)"
      by (auto simp: tt it)
    then show ?thesis
      using lane_loop_result [OF ob \<open>r \<noteq> []\<close>, of B "traffic_type sp" score]
      by (simp add: rest sp [symmetric])
  next
    case False
    then have "filter (lane_hit B r (traffic_type sp)) (lanes_of sp) = []"
      using lane_hit_other [of "traffic_type sp"] by (simp add: filter_empty_conv)
    moreover have "leg_loop B r (JObj kv # sps) score = leg_loop B r sps score"
      using False by (simp add: tt)
    ultimately show ?thesis
      by (simp add: rest sp [symmetric])
  qed
qed

lemma station_loop_ok:
  assumes "list_all wf_station sts"
  shows "\<exists>ns. station_loop sts names = Inr ns"
  using assms
proof (induction sts arbitrary: names)
  case Nil
  then show ?case by simp
next
  case (Cons st sts)
  then obtain kv where st: "st = JObj kv"
    by (cases st) (auto simp: wf_station_def is_obj_def)
  have "opt_field is_str st ''stationName''"
    using Cons.prems by (simp add: wf_station_def)
  then have "\<exists>s. norm (por (case map_of kv (ustr ''stationName'') of None \<Rightarrow> JNull | Some v \<Rightarrow> v)
                          (JStr [])) = Inr s"
    by (auto simp: st opt_field_def field_def is_str_def por_def norm_str norm_null
             split: option.splits json.splits)
  then show ?case
    using Cons by (auto simp: st)
qed

lemma wf_stops_stations:
  assumes "wf_stops pl" and "k = ''stations'' \<or> k = ''station''"
  shows "\<exists>kv sts. pl = JObj kv
           \<and> por (case map_of kv (ustr k) of None \<Rightarrow> JArr [] | Some v \<Rightarrow> v) (JArr []) = JArr sts
           \<and> (truthy (case map_of kv (ustr k) of None \<Rightarrow> JArr [] | Some v \<Rightarrow> v)
                \<longrightarrow> (case map_of kv (ustr k) of None \<Rightarrow> JArr [] | Some v \<Rightarrow> v) = JArr sts)
           \<and> list_all wf_station sts"
proof -
  obtain kv where l: "pl = JObj kv"
    using assms by (cases pl) (auto simp: wf_stops_def is_obj_def)
  have "opt_field (list_of wf_station) pl k"
    using assms by (auto simp: wf_stops_def)
  then show ?thesis
    by (auto simp: l opt_field_def field_def list_of_def por_def
             split: option.splits json.splits)
qed

lemma wf_leg_pass_list:
  assumes "wf_leg sp"
  shows "\<exists>kv. sp = JObj kv
           \<and> wf_stops (por (case map_of kv (ustr ''passStopList'') of None \<Rightarrow> JNull | Some v \<Rightarrow> v)
                            (JObj []))"
proof -
  obtain kv where l: "sp = JObj kv"
    using assms by (cases sp) (auto simp: wf_leg_def is_obj_def)
  have e: "wf_stops (JObj [])"
    by (simp add: wf_stops_def is_obj_def opt_field_def field_def)
  have "opt_field wf_stops sp ''passStopList''"
    using assms by (simp add: wf_leg_def)
  then show ?thesis
    using e by (auto simp: l opt_field_def field_def por_def split: option.splits json.splits)
qed

lemma stops_loop_step:
  assumes "wf_leg sp"
  shows "\<exists>sts. list_all wf_station sts
           \<and> (\<forall>names rest. stops_loop (sp # rest) names
                = bindE (station_loop sts names) (\<lambda>names'. stops_loop rest names'))"
proof -
  from wf_leg_pass_list [OF assms] obtain kv where
    sp: "sp = JObj kv" and
    w: "wf_stops (por (case map_of kv (ustr ''passStopList'') of None \<Rightarrow> JNull | Some v \<Rightarrow> v)
                      (JObj []))" (is "wf_stops ?pl")
    by auto
  from wf_stops_stations [OF w, of "''stations''"] obtain kv1 sts1 where
    pl: "?pl = JObj kv1" and
    a1: "por (case map_of kv1 (ustr ''stations'') of None \<Rightarrow> JArr [] | Some v \<Rightarrow> v) (JArr []) = JArr sts1" and
    t1: "truthy (case map_of kv1 (ustr ''stations'') of None \<Rightarrow> JArr [] | Some v \<Rightarrow> v)
           \<longrightarrow> (case map_of kv1 (ustr ''stations'') of None \<Rightarrow> JArr [] | Some v \<Rightarrow> v) = JArr sts1" and
    w1: "list_all wf_station sts1"
    by auto
  from wf_stops_stations [OF w, of "''station''"] pl obtain sts2 where
    a2: "por (case map_of kv1 (ustr ''station'') of None \<Rightarrow> JArr [] | Some v \<Rightarrow> v) (JArr []) = JArr sts2" and
    w2: "list_all wf_station sts2"
    by auto
  show ?thesis
  proof (cases "truthy (case map_of kv1 (ustr ''stations'') of None \<Rightarrow> JArr [] | Some v \<Rightarrow> v)")
    case True
    then have "\<forall>names rest. stops_loop (sp # rest) names
                = bindE (station_loop sts1 names) (\<lambda>names'. stops_loop rest names')"
      using t1 by (simp add: sp pl)
    then show ?thesis using w1 by blast
  next
    case False
    then have "\<forall>names rest. stops_loop (sp # rest) names
                = bindE (station_loop sts2 names) (\<lambda>names'. stops_loop rest names')"
      using a2 by (simp add: sp pl)
    then show ?thesis using w2 by blast
  qed
qed

lemma stops_loop_ok:
  assumes "list_all wf_leg sps"
  shows "\<exists>ns. stops_loop sps names = Inr ns"
  using assms
proof (induction sps arbitrary: names)
  case Nil
  then show ?case by simp
next
  case (Cons sp sps)
  from Cons.prems stops_loop_step [of sp] obtain sts where
    w: "list_all wf_station sts" and
    st: "stops_loop (sp # sps) names = bindE (station_loop sts names) (\<lambda>names'. stops_loop sps names')"
    by auto
  from station_loop_ok [OF w, of names] obtain ns where "station_loop sts names = Inr ns"
    by blast
  then show ?case
    using Cons st by simp
qed

lemma total_time_wf:
  assumes "wf_route p"
  shows "total_time B p = Inr (route_time p)"
proof -
  obtain kv where p: "p = JObj kv"
    using assms by (cases p) (auto simp: wf_route_def is_obj_def)
  show ?thesis
  proof (cases "map_of kv (ustr ''info'')")
    case None
    then show ?thesis
      by (simp add: p total_time_def route_time_def info_time_def field_def por_def)
  next
    case (Some i)
    then have "wf_info i"
      using assms by (simp add: p wf_route_def field_def)
    then obtain ikv where i: "i = JObj ikv" and o: "opt_field is_int i ''totalTime''"
      by (cases i) (auto simp: wf_info_def is_obj_def)
    from o show ?thesis
      by (auto simp: p Some i total_time_def route_time_def info_time_def field_def por_def
                     opt_field_def is_int_def
               split: option.splits json.splits)
  qed
qed

lemma wf_route_legs:
  assumes "wf_route p"
  shows "\<exists>kv. p = JObj kv
          \<and> por (case map_of kv (ustr ''subPath'') of None \<Rightarrow> JArr [] | Some v \<Rightarrow> v) (JArr [])
              = JArr (legs_of p)
          \<and> list_all wf_leg (legs_of p)"
proof -
  obtain kv where l: "p = JObj kv"
    using assms by (cases p) (auto simp: wf_route_def is_obj_def)
  have "opt_field (list_of wf_leg) p ''subPath''"
    using assms by (simp add: wf_route_def)
  then show ?thesis
    by (auto simp: l opt_field_def field_def legs_of_def list_of_def por_def
             split: option.splits json.splits)
qed

text \<open>The score of a well-formed route: 10 for each matching lane, 5 for a board hint found
  in the pool \<open>ns\<close> of normalized stop names, 5 for a drop hint found there.\<close>

lemma score_wf:
  assumes "wf_route p"
  shows "\<exists>ns. \<forall>ride board drop'.
           score_path_for_ride B p ride board drop' =
             Inr ((if normalized ride = [] then 0
                   else 10 * int (matching_lanes B (normalized ride) p))
                  + (if normalized board \<noteq> [] \<and> list_ex (str_in (normalized board)) ns
                     then 5 else 0)
                  + (if normalized drop' \<noteq> [] \<and> list_ex (str_in (normalized drop')) ns
                     then 5 else 0),
                  route_time p)"
proof -
  from wf_route_legs [OF assms] obtain kv where
    p: "p = JObj kv" and
    sp: "por (case map_of kv (ustr ''subPath'') of None \<Rightarrow> JArr [] | Some v \<Rightarrow> v) (JArr [])
           = JArr (legs_of p)" and
    w: "list_all wf_leg (legs_of p)"
    by auto
  from stops_loop_ok [OF w, of "[]"] obtain ns where ns: "stops_loop (legs_of p) [] = Inr ns"
    by blast
  have sub: "py_get p (ustr ''subPath'') (JArr [])
               = Inr (case map_of kv (ustr ''subPath'') of None \<Rightarrow> JArr [] | Some v \<Rightarrow> v)"
    by (simp add: p)
  have "\<forall>ride board drop'.
           score_path_for_ride B p ride board drop' =
             Inr ((if normalized ride = [] then 0
                   else 10 * int (matching_lanes B (normalized ride) p))
                  + (if normalized board \<noteq> [] \<and> list_ex (str_in (normalized board)) ns
                     then 5 else 0)
                  + (if normalized drop' \<noteq> [] \<and> list_ex (str_in (normalized drop')) ns
                     then 5 else 0),
                  route_time p)"
    using leg_loop_result [OF w, of _ B 0]
    by (simp add: score_path_for_ride_def norm_str total_time_wf [OF assms] sub sp
                  ride_matching_def station_names_def ns matching_lanes_def)
  then show ?thesis by blast
qed

subsection \<open>Ride matching\<close>

text \<open>What lines 103 to 128 add on a well-formed route, whatever the board and drop hints
  are: 10 for each lane of a subway or bus leg that has a matching name, so a leg with
  several matching lanes adds more than 10.\<close>

lemma ride_score_counts_lanes:
  assumes "wf_route p" and "normalized ride \<noteq> []"
  shows "\<exists>s0 tt. score_path_for_ride B p [] board drop' = Inr (s0, tt)
           \<and> score_path_for_ride B p ride board drop'
               = Inr (s0 + 10 * int (matching_lanes B (normalized ride) p), tt)"
proof -
  from score_wf [OF assms(1), of B] obtain ns where
    "\<forall>ride board drop'.
           score_path_for_ride B p ride board drop' =
             Inr ((if normalized ride = [] then 0
                   else 10 * int (matching_lanes B (normalized ride) p))
                  + (if normalized board \<noteq> [] \<and> list_ex (str_in (normalized board)) ns
                     then 5 else 0)
                  + (if normalized drop' \<noteq> [] \<and> list_ex (str_in (normalized drop')) ns
                     then 5 else 0),
                  route_time p)"
    by blast
  then have "score_path_for_ride B p [] board drop' = Inr (0
                  + (if normalized board \<noteq> [] \<and> list_ex (str_in (normalized board)) ns
                     then 5 else 0)
                  + (if normalized drop' \<noteq> [] \<and> list_ex (str_in (normalized drop')) ns
                     then 5 else 0), route_time p)"
    and "score_path_for_ride B p ride board drop' = Inr (10 * int (matching_lanes B (normalized ride) p)
                  + (if normalized board \<noteq> [] \<and> list_ex (str_in (normalized board)) ns
                     then 5 else 0)
                  + (if normalized drop' \<noteq> [] \<and> list_ex (str_in (normalized drop')) ns
                     then 5 else 0), route_time p)"
    using assms(2) by (simp_all add: normalized_def strip_def)
  then show ?thesis by simp
qed

text \<open>
  C1: each leg with at least one matching lane is to add exactly 10 to the score. The code
  breaks this: a single bus leg whose two lanes both match the hint \<^verbatim>\<open>401\<close> adds 20,
  where a bus leg with one matching lane adds 10.
  The \<^verbatim>\<open>break\<close> on line 128 leaves the loop over the names of one lane, not the loop
  over the lanes of the leg, although the comment on line 127 says that one match is
  enough and the board and drop hints add their points once.
\<close>

theorem two_lanes_score_twenty:
  "matching_legs example_builtins (ustr ''401'') route_two_lanes = 1
   \<and> score_path_for_ride example_builtins route_two_lanes (ustr ''401'') [] [] = Inr (20, 1000000000)
   \<and> score_path_for_ride example_builtins (bus_route ''401'' 40 ''B'') (ustr ''401'') [] []
       = Inr (10, 40)"
  by (simp add: route_two_lanes_def bus_route_def matching_legs_def legs_of_def lanes_of_def traffic_type_def
        field_def lane_hit_def lane_names_def normalized_def strip_def is_space_def ustr_simps
        score_path_for_ride_def norm_def replace_del_def total_time_def por_def
        ride_matching_def station_names_def lane_candidates_def)

subsection \<open>The total time\<close>

text \<open>
  C2, as stated, fails: a \<^verbatim>\<open>totalTime\<close> of 0 is false for \<^verbatim>\<open>or\<close> on line 97, so the
  scorer reports the sentinel and not 0.
\<close>

theorem total_time_zero_gives_sentinel:
  "info_time (route_with_time 0) = Some (JInt 0)
   \<and> score_path_for_ride example_builtins (route_with_time 0) [] [] [] = Inr (0, 1000000000)"
  by (simp add: route_with_time_def info_time_def field_def ustr_simps
        score_path_for_ride_def norm_def total_time_def por_def
        ride_matching_def station_names_def)

text \<open>
  C2, amended: for every well-formed candidate route the scorer returns, and its
  \<^verbatim>\<open>totalTime\<close> is \<^verbatim>\<open>info.totalTime\<close> when that field is an integer other than 0, and the
  sentinel \<open>10\<^sup>9\<close> when the field is absent, \<^verbatim>\<open>null\<close> or 0.
\<close>

theorem scorer_total_time:
  assumes "wf_route p"
  shows "\<exists>sc. score_path_for_ride B p ride board drop' =
           Inr (sc, case info_time p of
                      Some (JInt n) \<Rightarrow> if n = 0 then 10 ^ 9 else n
                    | _ \<Rightarrow> 10 ^ 9)"
  using score_wf [OF assms, of B] by (auto simp: route_time_def)

theorem scorer_total_time_witness:
  "score_path_for_ride example_builtins (route_with_time 30) [] [] [] = Inr (0, 30)
   \<and> score_path_for_ride example_builtins (JObj []) [] [] [] = Inr (0, 1000000000)"
  using scorer_total_time [of "route_with_time 30" example_builtins "[]" "[]" "[]"]
    scorer_total_time [of "JObj []" example_builtins "[]" "[]" "[]"]
  by (simp add: route_with_time_def info_time_def field_def ustr_simps
        score_path_for_ride_def norm_def total_time_def por_def
        ride_matching_def station_names_def
        wf_route_def wf_info_def is_obj_def opt_field_def is_int_def)

section \<open>The scorer on arbitrary routes\<close>

text \<open>Whatever the route is, a score that is returned is not negative, and an exception that
  escapes the scorer is one of Python's own, never an \<^verbatim>\<open>HTTPException\<close>.\<close>

lemma lane_loop_mono: "lane_loop B r t lanes s = Inr s' \<Longrightarrow> s \<le> s'"
proof (induction lanes arbitrary: s)
  case Nil
  then show ?case by simp
next
  case (Cons lane lanes)
  then show ?case
    by (fastforce simp: bindE_def cand_loop_result split: sum.splits if_splits)
qed

lemma leg_loop_mono: "leg_loop B r sps s = Inr s' \<Longrightarrow> s \<le> s'"
proof (induction sps arbitrary: s)
  case Nil
  then show ?case by simp
next
  case (Cons sp sps)
  then show ?case
    by (fastforce simp: bindE_def split: sum.splits if_splits dest: lane_loop_mono)
qed

lemma score_nonneg:
  assumes "score_path_for_ride B p ride board drop' = Inr r"
  shows "0 \<le> fst r"
proof -
  from assms obtain sp s1 where
    "ride_matching B (normalized ride) sp 0 = Inr s1" and "s1 \<le> fst r"
    by (auto simp: score_path_for_ride_def norm_str bindE_def split: sum.splits if_splits)
  moreover have "0 \<le> s1"
    using calculation(1) leg_loop_mono [of B "normalized ride" _ 0 s1]
    by (auto simp: ride_matching_def bindE_def split: sum.splits if_splits)
  ultimately show ?thesis by simp
qed












section \<open>Properties of the selector\<close>

text \<open>The loop over the routes is a left fold of \<open>update_best\<close> over the scored routes, and
  the fold keeps the first entry that no entry beats.\<close>

lemma update_best_beats:
  "update_best (Some b) x =
     (if beats (fst x, fst (snd x)) (fst b, fst (snd b)) then Some x else Some b)"
  by (cases b; cases x) (auto simp: beats_def)

lemma fold_best_pick:
  assumes "xs \<noteq> []"
  shows "\<exists>i<length xs. foldl update_best None xs = Some (xs ! i)
           \<and> (\<forall>j<length xs. \<not> beats (fst (xs ! j), fst (snd (xs ! j))) (fst (xs ! i), fst (snd (xs ! i))))
           \<and> (\<forall>j<i. beats (fst (xs ! i), fst (snd (xs ! i))) (fst (xs ! j), fst (snd (xs ! j))))"
  using assms
proof (induction xs rule: rev_induct)
  case Nil
  then show ?case by simp
next
  case (snoc x ys)
  show ?case
  proof (cases "ys = []")
    case True
    have "foldl update_best None [x] = Some x"
      by (cases x) simp
    then show ?thesis
      using True by (simp add: beats_def)
  next
    case False
    with snoc.IH obtain i where
      i: "i < length ys" and
      f: "foldl update_best None ys = Some (ys ! i)" and
      a: "\<forall>j<length ys. \<not> beats (fst (ys ! j), fst (snd (ys ! j))) (fst (ys ! i), fst (snd (ys ! i)))" and
      b: "\<forall>j<i. beats (fst (ys ! i), fst (snd (ys ! i))) (fst (ys ! j), fst (snd (ys ! j)))"
      by blast
    show ?thesis
    proof (cases "beats (fst x, fst (snd x)) (fst (ys ! i), fst (snd (ys ! i)))")
      case True
      have r: "foldl update_best None (ys @ [x]) = Some ((ys @ [x]) ! length ys)"
        using True by (simp add: f update_best_beats)
      have "\<forall>j<length ys. beats (fst x, fst (snd x)) (fst (ys ! j), fst (snd (ys ! j)))"
        using a True by (fastforce simp: beats_def)
      then have "(\<forall>j<length (ys @ [x]). \<not> beats (fst ((ys @ [x]) ! j), fst (snd ((ys @ [x]) ! j)))
                     (fst x, fst (snd x)))
                 \<and> (\<forall>j<length ys. beats (fst x, fst (snd x))
                     (fst ((ys @ [x]) ! j), fst (snd ((ys @ [x]) ! j))))"
        by (auto simp: nth_append beats_def less_Suc_eq)
      then show ?thesis
        using r by (intro exI [of _ "length ys"]) simp
    next
      case False
      have r: "foldl update_best None (ys @ [x]) = Some ((ys @ [x]) ! i)"
        using False i by (simp add: f update_best_beats nth_append)
      have "(\<forall>j<length (ys @ [x]). \<not> beats (fst ((ys @ [x]) ! j), fst (snd ((ys @ [x]) ! j)))
                     (fst ((ys @ [x]) ! i), fst (snd ((ys @ [x]) ! i))))
            \<and> (\<forall>j<i. beats (fst ((ys @ [x]) ! i), fst (snd ((ys @ [x]) ! i)))
                     (fst ((ys @ [x]) ! j), fst (snd ((ys @ [x]) ! j))))"
        using a b i False by (auto simp: nth_append less_Suc_eq)
      then show ?thesis
        using r i by (intro exI [of _ i]) simp
    qed
  qed
qed

lemma best_loop_fold:
  assumes "map (\<lambda>p. score_path_for_ride B p ride board drop') ps = map Inr rs"
  shows "best_loop B ride board drop' ps best =
           Inr (foldl update_best best (map2 (\<lambda>r p. (fst r, snd r, p)) rs ps))"
  using assms
proof (induction ps arbitrary: rs best)
  case Nil
  then show ?case by simp
next
  case (Cons p ps)
  then obtain r rs' where rs: "rs = r # rs'"
    by (cases rs) auto
  with Cons.prems have
    h: "score_path_for_ride B p ride board drop' = Inr r" and
    t: "map (\<lambda>p. score_path_for_ride B p ride board drop') ps = map Inr rs'"
    by auto
  show ?case
    using Cons.IH [OF t] by (cases r) (simp add: h rs bindE_def)
qed


lemma locate_paths_route_list:
  "locate_paths data =
     (case route_list data of None \<Rightarrow> Inl (HTTPException 500 PathMissing) | Some v \<Rightarrow> Inr v)"
proof (cases data)
  case (JObj kv)
  show ?thesis
  proof (cases "map_of kv (ustr ''result'')")
    case None
    then show ?thesis
      by (simp add: JObj locate_paths_def route_list_def field_def)
  next
    case (Some r)
    then show ?thesis
      by (cases r)
         (simp_all add: JObj locate_paths_def route_list_def field_def split: option.splits)
  qed
qed (simp_all add: locate_paths_def route_list_def field_def)


lemma select_fold:
  assumes "route_list data = Some (JArr (p0 # ps))"
    and "ride \<noteq> [] \<or> board \<noteq> [] \<or> drop' \<noteq> []"
    and "map (\<lambda>p. score_path_for_ride B p ride board drop') (p0 # ps) = map Inr rs"
  shows "select_path_for_ride B data ride board drop' =
           (case foldl update_best None (map2 (\<lambda>r p. (fst r, snd r, p)) rs (p0 # ps)) of
              None \<Rightarrow> Inr p0
            | Some (best_score, t, best_path) \<Rightarrow>
                if best_score = 0 then Inr p0 else Inr best_path)"
  using assms(2) best_loop_fold [OF assms(3), of None]
  by (auto simp: select_path_for_ride_def locate_paths_route_list assms(1)
           split: option.splits)

lemma select_winner:
  assumes rl: "route_list data = Some (JArr (p0 # ps))"
    and hints: "ride \<noteq> [] \<or> board \<noteq> [] \<or> drop' \<noteq> []"
    and sc: "map (\<lambda>p. score_path_for_ride B p ride board drop') (p0 # ps) = map Inr rs"
  shows "\<exists>i<length (p0 # ps).
           select_path_for_ride B data ride board drop'
             = (if fst (rs ! i) = 0 then Inr p0 else Inr ((p0 # ps) ! i))
           \<and> (\<forall>j<length (p0 # ps). \<not> beats (rs ! j) (rs ! i))
           \<and> (\<forall>j<i. beats (rs ! i) (rs ! j))"
proof -
  let ?xs = "map2 (\<lambda>r p. (fst r, snd r, p)) rs (p0 # ps)"
  have len: "length rs = length (p0 # ps)"
    using sc by (metis length_map)
  then have ne: "?xs \<noteq> []" and lx: "length ?xs = length (p0 # ps)"
    by auto
  have nth: "\<And>j. j < length (p0 # ps) \<Longrightarrow> ?xs ! j = (fst (rs ! j), snd (rs ! j), (p0 # ps) ! j)"
    using len by simp
  from fold_best_pick [OF ne] obtain i where
    i: "i < length ?xs" and
    f: "foldl update_best None ?xs = Some (?xs ! i)" and
    a: "\<forall>j<length ?xs. \<not> beats (fst (?xs ! j), fst (snd (?xs ! j))) (fst (?xs ! i), fst (snd (?xs ! i)))" and
    b: "\<forall>j<i. beats (fst (?xs ! i), fst (snd (?xs ! i))) (fst (?xs ! j), fst (snd (?xs ! j)))"
    by blast
  have i': "i < length (p0 # ps)"
    using i lx by simp
  have "select_path_for_ride B data ride board drop'
          = (if fst (rs ! i) = 0 then Inr p0 else Inr ((p0 # ps) ! i))"
    using select_fold [OF rl hints sc] f nth [OF i'] by simp
  moreover have "\<forall>j<length (p0 # ps). \<not> beats (rs ! j) (rs ! i)"
    using a nth i' lx by simp
  moreover have "\<forall>j<i. beats (rs ! i) (rs ! j)"
    using b nth i' by simp
  ultimately show ?thesis
    using i' by blast
qed








subsection \<open>The best route\<close>

text \<open>
  C3: one turn of the selector's loop replaces the current best exactly when the
  candidate beats it, that is when its score is strictly greater, or the scores are equal
  and its \<^verbatim>\<open>totalTime\<close> is strictly less; the first route becomes the best
  unconditionally. Hence, with a hint present and a score for every route, the selector
  returns a route of the list with the greatest score; unless that score is 0 (then the
  first route is returned), no route beats it and it beats every route listed before it.
  In every case no earlier route has the same score and the same \<^verbatim>\<open>totalTime\<close>: on an
  exact tie the earlier-listed route is returned.
\<close>

theorem select_picks_first_best:
  assumes "route_list data = Some (JArr ps)" and "ps \<noteq> []"
    and "ride \<noteq> [] \<or> board \<noteq> [] \<or> drop' \<noteq> []"
    and "map (\<lambda>p. score_path_for_ride B p ride board drop') ps = map Inr rs"
  shows "(\<forall>x. update_best None x = Some x)
         \<and> (\<forall>b x. update_best (Some b) x =
                (if beats (fst x, fst (snd x)) (fst b, fst (snd b)) then Some x else Some b))
         \<and> (\<exists>i<length ps.
               select_path_for_ride B data ride board drop' = Inr (ps ! i)
               \<and> (\<forall>j<length ps. fst (rs ! j) \<le> fst (rs ! i))
               \<and> (fst (rs ! i) \<noteq> 0 \<longrightarrow>
                     (\<forall>j<length ps. \<not> beats (rs ! j) (rs ! i))
                     \<and> (\<forall>j<i. beats (rs ! i) (rs ! j)))
               \<and> (\<forall>j<i. rs ! j \<noteq> rs ! i))"
proof -
  obtain p0 qs where ps: "ps = p0 # qs"
    using assms(2) by (cases ps) auto
  have len: "length rs = length ps"
    using assms(4) by (metis length_map)
  have nn: "\<forall>j<length ps. 0 \<le> fst (rs ! j)"
  proof (intro allI impI)
    fix j assume "j < length ps"
    with assms(4) have "score_path_for_ride B (ps ! j) ride board drop' = Inr (rs ! j)"
      by (rule map_Inr_nth)
    then show "0 \<le> fst (rs ! j)"
      by (rule score_nonneg)
  qed
  from select_winner [OF assms(1) [unfolded ps] assms(3) assms(4) [unfolded ps]] obtain i where
    i: "i < length ps" and
    r: "select_path_for_ride B data ride board drop'
          = (if fst (rs ! i) = 0 then Inr p0 else Inr (ps ! i))" and
    a: "\<forall>j<length ps. \<not> beats (rs ! j) (rs ! i)" and
    b: "\<forall>j<i. beats (rs ! i) (rs ! j)"
    unfolding ps by blast
  have le: "\<forall>j<length ps. fst (rs ! j) \<le> fst (rs ! i)"
    using a by (auto simp: beats_def)
  have winner: "\<exists>i<length ps.
               select_path_for_ride B data ride board drop' = Inr (ps ! i)
               \<and> (\<forall>j<length ps. fst (rs ! j) \<le> fst (rs ! i))
               \<and> (fst (rs ! i) \<noteq> 0 \<longrightarrow>
                     (\<forall>j<length ps. \<not> beats (rs ! j) (rs ! i))
                     \<and> (\<forall>j<i. beats (rs ! i) (rs ! j)))
               \<and> (\<forall>j<i. rs ! j \<noteq> rs ! i)"
  proof (cases "fst (rs ! i) = 0")
    case True
    have "0 < length ps"
      using assms(2) by simp
    moreover have "select_path_for_ride B data ride board drop' = Inr (ps ! 0)"
      using r True by (simp add: ps)
    moreover have "fst (rs ! 0) = 0"
      using le nn True calculation(1) by (metis order_antisym)
    moreover have "\<forall>j<length ps. fst (rs ! j) \<le> fst (rs ! 0)"
      using le True calculation(3) by simp
    ultimately show ?thesis
      by (intro exI [of _ 0]) simp
  next
    case False
    have "\<forall>j<i. rs ! j \<noteq> rs ! i"
      using b by (auto simp: beats_def)
    then show ?thesis
      using False i r a b le by (intro exI [of _ i]) simp
  qed
  have first: "\<forall>x. update_best None x = Some x"
    by (metis prod_cases3 update_best.simps(1))
  have step: "\<forall>b x. update_best (Some b) x =
                (if beats (fst x, fst (snd x)) (fst b, fst (snd b)) then Some x else Some b)"
    using update_best_beats by blast
  show ?thesis
    using first step winner by (intro conjI)
qed

lemma ex_scores:
  "map (\<lambda>p. score_path_for_ride example_builtins p (ustr ''401'') [] [])
       [bus_route ''7'' 30 ''A'', bus_route ''401'' 40 ''B'', bus_route ''401'' 40 ''C'']
     = map Inr [(0, 30), (10, 40), (10, 40)]"
  by (simp add: eval_defs)

theorem select_picks_first_best_witness:
  "select_path_for_ride example_builtins
     (response_with (JArr [bus_route ''7'' 30 ''A'', bus_route ''401'' 40 ''B'',
                           bus_route ''401'' 40 ''C'']))
     (ustr ''401'') [] []
   = Inr (bus_route ''401'' 40 ''B'')"
proof -
  let ?ps = "[bus_route ''7'' 30 ''A'', bus_route ''401'' 40 ''B'', bus_route ''401'' 40 ''C'']"
  let ?rs = "[(0, 30), (10, 40), (10, 40)] :: (int \<times> int) list"
  have rl: "route_list (response_with (JArr ?ps)) = Some (JArr ?ps)"
    by (simp add: response_with_def route_list_def field_def)
  have ne: "?ps \<noteq> []"
    by simp
  have h: "ustr ''401'' \<noteq> [] \<or> ([]::pstr) \<noteq> [] \<or> ([]::pstr) \<noteq> []"
    by (simp add: ustr_simps)
  from select_picks_first_best [OF rl ne h ex_scores] obtain i where
    i: "i < length ?ps" and
    r: "select_path_for_ride example_builtins (response_with (JArr ?ps)) (ustr ''401'') [] []
          = Inr (?ps ! i)" and
    m: "\<forall>j<length ?ps. fst (?rs ! j) \<le> fst (?rs ! i)" and
    t: "\<forall>j<i. ?rs ! j \<noteq> ?rs ! i"
    by blast
  from i have "i = 0 \<or> i = 1 \<or> i = 2"
    by auto
  moreover have "i \<noteq> 0"
    using m [rule_format, of 1] by (cases "i = 0") auto
  moreover have "i \<noteq> 2"
    using t [rule_format, of 1] by (cases "i = 2") auto
  ultimately have "i = 1"
    by blast
  then show ?thesis
    using r by simp
qed

subsection \<open>The fallback on a best score of zero\<close>

text \<open>
  C4: for a non-empty route list, hints of which one is not empty, and a score for every
  route, if the maximum score is 0 the selector returns the first route, as it does with
  all hints empty.
\<close>

theorem zero_score_falls_back:
  assumes "route_list data = Some (JArr (p0 # ps))"
    and "ride \<noteq> [] \<or> board \<noteq> [] \<or> drop' \<noteq> []"
    and "map (\<lambda>p. score_path_for_ride B p ride board drop') (p0 # ps) = map Inr rs"
    and "Max (set (map fst rs)) = 0"
  shows "select_path_for_ride B data ride board drop' = Inr p0
         \<and> select_path_for_ride B data [] [] [] = Inr p0"
proof -
  have len: "length rs = length (p0 # ps)"
    using assms(3) by (metis length_map)
  from select_winner [OF assms(1,2,3)] obtain i where
    i: "i < length (p0 # ps)" and
    r: "select_path_for_ride B data ride board drop'
          = (if fst (rs ! i) = 0 then Inr p0 else Inr ((p0 # ps) ! i))" and
    a: "\<forall>j<length (p0 # ps). \<not> beats (rs ! j) (rs ! i)"
    by blast
  have "fst (rs ! i) \<in> set (map fst rs)"
    using i len by (metis length_map nth_map nth_mem)
  moreover have "\<forall>j<length rs. fst (rs ! j) \<le> fst (rs ! i)"
    using a len by (auto simp: beats_def)
  then have "\<forall>x\<in>set (map fst rs). x \<le> fst (rs ! i)"
    by (metis (no_types, lifting) in_set_conv_nth length_map nth_map)
  ultimately have "Max (set (map fst rs)) = fst (rs ! i)"
    by (intro Max_eqI) auto
  then have "select_path_for_ride B data ride board drop' = Inr p0"
    using r assms(4) by simp
  moreover have "select_path_for_ride B data [] [] [] = Inr p0"
    by (simp add: select_path_for_ride_def locate_paths_route_list assms(1))
  ultimately show ?thesis by simp
qed

lemma ex_scores_zero:
  "map (\<lambda>p. score_path_for_ride example_builtins p (ustr ''401'') [] [])
       (bus_route ''7'' 30 ''A'' # [bus_route ''9'' 20 ''B''])
     = map Inr [(0, 30), (0, 20)]"
  by (simp add: eval_defs)

theorem zero_score_falls_back_witness:
  "select_path_for_ride example_builtins
     (response_with (JArr [bus_route ''7'' 30 ''A'', bus_route ''9'' 20 ''B'']))
     (ustr ''401'') [] []
   = Inr (bus_route ''7'' 30 ''A'')
   \<and> select_path_for_ride example_builtins
     (response_with (JArr [bus_route ''7'' 30 ''A'', bus_route ''9'' 20 ''B''])) [] [] []
   = Inr (bus_route ''7'' 30 ''A'')"
proof -
  let ?ps = "[bus_route ''7'' 30 ''A'', bus_route ''9'' 20 ''B'']"
  have rl: "route_list (response_with (JArr ?ps)) = Some (JArr ?ps)"
    by (simp add: response_with_def route_list_def field_def)
  have h: "ustr ''401'' \<noteq> [] \<or> ([]::pstr) \<noteq> [] \<or> ([]::pstr) \<noteq> []"
    by (simp add: ustr_simps)
  have mx: "Max (set (map fst [(0::int, 30::int), (0, 20)])) = 0"
    by simp
  show ?thesis
    by (rule zero_score_falls_back [OF rl h ex_scores_zero mx])
qed

subsection \<open>The two error conditions\<close>




subsection \<open>Empty and blank hints\<close>

text \<open>
  C6: when the three hints are empty the selector returns the first element of a non-empty
  route list unchanged. Nothing is asked of the routes: the result is the same where the
  scorer would raise, so the scorer is not run.
\<close>

theorem no_hints_first_route:
  assumes "route_list data = Some (JArr (p0 # ps))"
  shows "select_path_for_ride B data [] [] [] = Inr p0"
  by (simp add: select_path_for_ride_def locate_paths_route_list assms)

theorem no_hints_first_route_witness:
  "score_path_for_ride example_builtins (JInt 5) [] [] [] = Inl AttributeError
   \<and> select_path_for_ride example_builtins
         (response_with (JArr [JInt 5, bus_route ''401'' 40 ''B''])) [] [] []
     = Inr (JInt 5)"
proof -
  have "route_list (response_with (JArr [JInt 5, bus_route ''401'' 40 ''B'']))
          = Some (JArr (JInt 5 # [bus_route ''401'' 40 ''B'']))"
    by (simp add: route_list_def field_def response_with_def)
  from no_hints_first_route [OF this, of example_builtins] show ?thesis
    by (simp add: score_path_for_ride_def norm_def total_time_def strip_def)
qed




section \<open>Properties of the handle extraction\<close>

text \<open>
  C10: once the selector has returned a route that is an object whose \<^verbatim>\<open>info\<close> is absent
  or an object, \<^verbatim>\<open>get_map_obj\<close> fails with the status 500 of the missing handle when
  \<^verbatim>\<open>mapObj\<close> is absent and for every false value of it (\<^verbatim>\<open>null\<close>, the empty string,
  0, \<^verbatim>\<open>false\<close>, an empty list or object), and returns the handle unchanged otherwise.
\<close>

theorem map_obj_falsy_is_missing:
  assumes "select_path_for_ride B data ride board drop' = Inr p"
    and "is_obj p"
    and "case field p ''info'' of None \<Rightarrow> True | Some i \<Rightarrow> is_obj i"
  shows "get_map_obj B data ride board drop' =
           (case info_map_obj p of
              None \<Rightarrow> Inl (HTTPException 500 MapObjMissing)
            | Some m \<Rightarrow> if truthy m then Inr m else Inl (HTTPException 500 MapObjMissing))"
proof -
  obtain kv where p: "p = JObj kv"
    using assms(2) by (cases p) (auto simp: is_obj_def)
  show ?thesis
  proof (cases "map_of kv (ustr ''info'')")
    case None
    then show ?thesis
      by (simp add: get_map_obj_def assms(1) p info_map_obj_def field_def)
  next
    case (Some i)
    then obtain ikv where "i = JObj ikv"
      using assms(3) by (cases i) (auto simp: p field_def is_obj_def)
    then show ?thesis
      by (simp add: get_map_obj_def assms(1) p Some info_map_obj_def field_def
               split: option.splits)
  qed
qed

theorem map_obj_falsy_is_missing_witness:
  "get_map_obj example_builtins (response_with (JArr [bus_route ''401'' 40 []])) [] [] []
     = Inl (HTTPException 500 MapObjMissing)
   \<and> get_map_obj example_builtins (response_with (JArr [bus_route ''401'' 40 ''B''])) [] [] []
     = Inr (JStr (ustr ''B''))
   \<and> get_map_obj example_builtins (response_with (JArr [route_two_lanes])) [] [] []
     = Inl (HTTPException 500 MapObjMissing)"
proof -
  have s: "\<And>p. select_path_for_ride example_builtins (response_with (JArr [p])) [] [] [] = Inr p"
    by (simp add: select_path_for_ride_def locate_paths_route_list route_list_def field_def
          response_with_def)
  have o: "\<And>b n h. is_obj (bus_route b n h)
             \<and> (case field (bus_route b n h) ''info'' of None \<Rightarrow> True | Some i \<Rightarrow> is_obj i)"
    by (simp add: bus_route_def is_obj_def field_def ustr_simps)
  have o2: "is_obj route_two_lanes
             \<and> (case field route_two_lanes ''info'' of None \<Rightarrow> True | Some i \<Rightarrow> is_obj i)"
    by (simp add: route_two_lanes_def is_obj_def field_def ustr_simps)
  show ?thesis
    using map_obj_falsy_is_missing [OF s conjunct1 [OF o] conjunct2 [OF o], of "''401''" 40 "[]"]
      map_obj_falsy_is_missing [OF s conjunct1 [OF o] conjunct2 [OF o], of "''401''" 40 "''B''"]
      map_obj_falsy_is_missing [OF s conjunct1 [OF o2] conjunct2 [OF o2]]
    by (simp add: info_map_obj_def bus_route_def route_two_lanes_def field_def ustr_simps)
qed

end
